theory Spec2Isabelle
  imports Main "HOL-Library.Word"
begin

section \<open>The stream\_listener microservice (sockets\_to\_fibers.h)\<close>

subsection \<open>The standard library functions that Create and GetCreateRequest call\<close>

text \<open>
  \<^verbatim>\<open>std::stoul(str)\<close> is \<^verbatim>\<open>strtoul(str.c_str(), &end, 10)\<close>: it skips leading
  white space (\<^verbatim>\<open>isspace\<close> of the C locale), reads one optional sign, then the longest run
  of decimal digits, and ignores whatever follows. With no digit it throws
  \<^verbatim>\<open>std::invalid_argument\<close>; with a digit run above \<^verbatim>\<open>ULONG_MAX\<close> it throws
  \<^verbatim>\<open>std::out_of_range\<close>; after a minus sign the value is negated in \<^verbatim>\<open>unsigned long\<close>.
  The width of \<^verbatim>\<open>unsigned long\<close> is the platform's (64 on LP64, 32 on LLP64 and ILP32), so it
  is the parameter \<open>ulong_bits\<close> of the model.
\<close>

datatype stoul_exception = Invalid_argument | Out_of_range

definition isspace :: "char \<Rightarrow> bool" where
  "isspace c = (c \<in> set [CHR 0x20, CHR 0x09, CHR 0x0A, CHR 0x0B, CHR 0x0C, CHR 0x0D])"

definition isdigit :: "char \<Rightarrow> bool" where
  "isdigit c = (48 \<le> (of_char c :: nat) \<and> (of_char c :: nat) \<le> 57)"

definition digit_value :: "char \<Rightarrow> nat" where
  "digit_value c = (of_char c :: nat) - 48"

text \<open>The optional sign: whether it was a minus, and the rest of the string.\<close>

fun read_sign :: "string \<Rightarrow> bool \<times> string" where
  "read_sign [] = (False, [])"
| "read_sign (c # cs) =
     (if c = CHR ''-'' then (True, cs)
      else if c = CHR ''+'' then (False, cs)
      else (False, c # cs))"

text \<open>The value of a run of decimal digits, most significant first.\<close>

definition decimal_value :: "string \<Rightarrow> nat" where
  "decimal_value ds = foldl (\<lambda>acc c. 10 * acc + digit_value c) 0 ds"

definition stoul :: "nat \<Rightarrow> string \<Rightarrow> stoul_exception + nat" where
  "stoul ulong_bits str =
     (let (negative, rest) = read_sign (dropWhile isspace str);
          ds = takeWhile isdigit rest
      in if ds = [] then Inl Invalid_argument
         else if 2 ^ ulong_bits \<le> decimal_value ds then Inl Out_of_range
         else Inr (if negative then (2 ^ ulong_bits - decimal_value ds) mod 2 ^ ulong_bits
                   else decimal_value ds))"

text \<open>
  \<^verbatim>\<open>std::to_string\<close> of an unsigned integer: its decimal digits, no sign, no leading zero
  (a single \<^verbatim>\<open>0\<close> for zero).
\<close>

definition digit_char :: "nat \<Rightarrow> char" where
  "digit_char d = char_of (48 + d)"

function to_string :: "nat \<Rightarrow> string" where
  "to_string n = (if n < 10 then [digit_char n] else to_string (n div 10) @ [digit_char (n mod 10)])"
  by pat_completeness auto
termination
  by (relation "measure (\<lambda>n. n)") auto

declare to_string.simps [simp del]

subsection \<open>The service object and the log\<close>

text \<open>
  The members of \<^verbatim>\<open>SocketsToFibers\<close> that \<^verbatim>\<open>Create\<close> determines, as it passes them to the
  constructor: \<^verbatim>\<open>local_addr\<close>, \<^verbatim>\<open>static_cast<uint16_t>(local_port)\<close> and the
  \<^verbatim>\<open>uint32_t remote_port\<close>. (The C++ members end in an underscore, which a constant's name
  cannot.)
\<close>

record SocketsToFibers =
  local_addr_m :: string
  local_port_m :: "16 word"
  remote_port_m :: "32 word"

text \<open>The three \<^verbatim>\<open>SSF_LOG\<close> calls of \<^verbatim>\<open>Create\<close>, with their level and argument.\<close>

datatype log_event =
    Warn_cannot_listen_without_gateway_ports string
  | Error_cannot_extract_port_parameters
  | Error_local_port_out_of_range "32 word"

type_synonym Parameters = "string \<rightharpoonup> string"

subsection \<open>Create\<close>

text \<open>
  The factory method. The result is the log it wrote and the pointer it returns:
  \<open>None\<close> is \<^verbatim>\<open>nullptr\<close>. \<^verbatim>\<open>io_service\<close> and \<^verbatim>\<open>fiber_demux\<close> are only handed on to
  the constructor and are left out. The two \<^verbatim>\<open>std::stoul\<close> results are stored in
  \<^verbatim>\<open>uint32_t\<close> variables, which reduces them modulo \<open>2 ^ 32\<close> before the range check.
\<close>

definition Create :: "nat \<Rightarrow> Parameters \<Rightarrow> bool \<Rightarrow> log_event list \<times> SocketsToFibers option" where
  "Create ulong_bits parameters gateway_ports =
     (case (parameters ''local_addr'', parameters ''local_port'', parameters ''remote_port'') of
        (Some addr_param, Some local_port_param, Some remote_port_param) \<Rightarrow>
          (let (local_addr, log) =
                 (if addr_param \<noteq> [] then
                    (if gateway_ports then
                       (if addr_param = ''*'' then (''0.0.0.0'', [])
                        else (addr_param, []))
                     else (''127.0.0.1'', [Warn_cannot_listen_without_gateway_ports addr_param]))
                  else (''127.0.0.1'', []))
           in case stoul ulong_bits local_port_param of
                Inl _ \<Rightarrow> (log @ [Error_cannot_extract_port_parameters], None)
              | Inr lp \<Rightarrow>
                 (case stoul ulong_bits remote_port_param of
                    Inl _ \<Rightarrow> (log @ [Error_cannot_extract_port_parameters], None)
                  | Inr rp \<Rightarrow>
                     (let local_port = (of_nat lp :: 32 word);
                          remote_port = (of_nat rp :: 32 word)
                      in if local_port > 65535
                         then (log @ [Error_local_port_out_of_range local_port], None)
                         else (log, Some \<lparr>local_addr_m = local_addr,
                                          local_port_m = ucast local_port,
                                          remote_port_m = remote_port\<rparr>))))
      | _ \<Rightarrow> ([], None))"

subsection \<open>GetCreateRequest\<close>

text \<open>
  \<^verbatim>\<open>LocalPortType\<close> and \<^verbatim>\<open>RemotePortType\<close> are typedefs of the \<^verbatim>\<open>Demux\<close> template
  parameter; their values are taken as natural numbers. \<^verbatim>\<open>kFactoryId\<close> is the underlying
  value of \<^verbatim>\<open>MicroserviceId::kSocketsToFibers\<close>, declared in services/service\_id.h, and is a
  parameter here.
\<close>

record CreateServiceRequest =
  service_id_m :: nat
  parameters_m :: Parameters

text \<open>
  Modelled from the spec: \<^verbatim>\<open>CreateServiceRequest::add_parameter\<close>
  (services/admin/requests/create\_service\_request.h) is not in the source at hand; the
  request's ``Parameters map populated with'' the three entries is a map update.
\<close>

definition add_parameter :: "string \<Rightarrow> string \<Rightarrow> CreateServiceRequest \<Rightarrow> CreateServiceRequest" where
  "add_parameter key val req = req\<lparr>parameters_m := (parameters_m req)(key \<mapsto> val)\<rparr>"

definition GetCreateRequest :: "nat \<Rightarrow> string \<Rightarrow> nat \<Rightarrow> nat \<Rightarrow> CreateServiceRequest" where
  "GetCreateRequest kFactoryId local_addr local_port remote_port =
     (let create_req = \<lparr>service_id_m = kFactoryId, parameters_m = Map.empty\<rparr>;
          create_req = add_parameter ''local_addr'' local_addr create_req;
          create_req = add_parameter ''local_port'' (to_string local_port) create_req;
          create_req = add_parameter ''remote_port'' (to_string remote_port) create_req
      in create_req)"

subsection \<open>The spec's notion of a port string\<close>

text \<open>
  The spec's ``well-formed non-negative decimal integer'': one or more decimal digits and
  nothing else. It is not used by the code; the properties of parsing are stated with it.
\<close>

definition well_formed_decimal :: "string \<Rightarrow> bool" where
  "well_formed_decimal s = (s \<noteq> [] \<and> list_all isdigit s)"

text \<open>
  The digit run \<^verbatim>\<open>std::stoul\<close> converts: what follows the leading white space and the
  optional sign, up to the first character that is not a digit.
\<close>

definition digit_run :: "string \<Rightarrow> string" where
  "digit_run str = takeWhile isdigit (snd (read_sign (dropWhile isspace str)))"

text \<open>
  The shape of a string that \<^verbatim>\<open>std::stoul\<close> accepts, written as its four parts: white
  space \<open>ws\<close>, an optional sign, a non-empty run of digits \<open>ds\<close>, and a rest that does not
  start with a digit.
\<close>

definition port_syntax :: "string \<Rightarrow> string \<Rightarrow> string \<Rightarrow> string \<Rightarrow> bool" where
  "port_syntax ws sign ds rest =
     (list_all isspace ws \<and> (sign = [] \<or> sign = ''+'' \<or> sign = ''-'') \<and>
      ds \<noteq> [] \<and> list_all isdigit ds \<and> (rest = [] \<or> \<not> isdigit (hd rest)))"

text \<open>
  The number such a string denotes in an \<^verbatim>\<open>unsigned long\<close> of \<open>ulong_bits\<close> bits: the
  value of the digits, negated modulo \<open>2 ^ ulong_bits\<close> after a minus sign.
\<close>

definition signed_value :: "nat \<Rightarrow> string \<Rightarrow> string \<Rightarrow> nat" where
  "signed_value ulong_bits sign ds =
     (if sign = ''-'' then (2 ^ ulong_bits - decimal_value ds) mod 2 ^ ulong_bits
      else decimal_value ds)"

section \<open>The runtime of the service\<close>

text \<open>
  \<^verbatim>\<open>start\<close>, \<^verbatim>\<open>stop\<close>, \<^verbatim>\<open>StopSession\<close>, \<^verbatim>\<open>SocketAcceptHandler\<close> and
  \<^verbatim>\<open>FiberConnectHandler\<close> are declared in sockets\_to\_fibers.h and defined in
  sockets\_to\_fibers.ipp; \<^verbatim>\<open>ItemManager\<close>, the type of \<^verbatim>\<open>manager_\<close>, is defined in
  ssf/network/manager.h. Neither file is among the sources, so this section follows the
  specification (its sections 3, 4.2 to 4.6 and 5). Completion handlers run one at a time on
  the event loop; each is a function on the state below, and an execution is a list of
  events.
\<close>

text \<open>
  Modelled from the spec: the states of a Session (section 4.4; the session class is not in
  the source).
\<close>

datatype session_state = Connecting | Relaying | Closed

text \<open>
  Modelled from the spec: one accepted TCP connection (the Session data model and the
  SessionEstablisher are not in the source). \<open>session\<close> is \<open>None\<close> until a Session object is
  constructed for the connection.
\<close>

record connection =
  socket_open :: bool
  fiber_open :: bool
  session :: "session_state option"

text \<open>
  Modelled from the spec: the running part of the Service (the members
  \<^verbatim>\<open>socket_acceptor_\<close> and \<^verbatim>\<open>manager_\<close> are declared in the header, their behaviour is
  not). Connections are numbered in the order of their acceptance, and a session's
  identifier in the registry is the number of its connection. \<open>removals\<close> is bookkeeping for
  the properties only: how many times \<open>erase\<close> took an entry with that identifier out of
  the registry.
\<close>

record service_state =
  listening :: bool
  accept_pending :: bool
  connections :: "connection list"
  registry :: "nat list"
  removals :: "nat \<Rightarrow> nat"

text \<open>
  Modelled from the spec: the two lifecycle errors of section 7 (\<^verbatim>\<open>start\<close> and \<^verbatim>\<open>stop\<close>
  set their error code in the missing sockets\_to\_fibers.ipp).
\<close>

datatype lifecycle_error = BindFailure | AlreadyStarted

text \<open>
  Modelled from the spec: the service as \<open>Create\<close> returns it, not started (the private
  constructor is defined in the missing sockets\_to\_fibers.ipp): no listening endpoint, no
  connection, an empty registry.
\<close>

definition initial :: service_state where
  "initial = \<lparr>listening = False, accept_pending = False, connections = [], registry = [],
              removals = (\<lambda>_. 0)\<rparr>"

text \<open>
  Modelled from the spec: \<open>SessionRegistry.insert\<close> (\<^verbatim>\<open>ItemManager\<close> is missing). The
  identifier is the number of the session's connection.
\<close>

definition insert_session :: "nat \<Rightarrow> service_state \<Rightarrow> service_state" where
  "insert_session c w = w\<lparr>registry := registry w @ [c]\<rparr>"

text \<open>
  Modelled from the spec: \<open>SessionRegistry.erase\<close> (\<^verbatim>\<open>ItemManager\<close> is missing), a no-op
  when the identifier is absent.
\<close>

definition erase :: "nat \<Rightarrow> service_state \<Rightarrow> service_state" where
  "erase c w =
     (if c \<in> set (registry w)
      then w\<lparr>registry := removeAll c (registry w),
             removals := (removals w)(c := Suc (removals w c))\<rparr>
      else w)"

text \<open>
  Modelled from the spec: the teardown of one session (section 4.4; the session class is
  missing). Both endpoints are closed and the session becomes \<open>Closed\<close>; there is nothing to
  stop where no Session was constructed.
\<close>

definition session_stop :: "nat \<Rightarrow> service_state \<Rightarrow> service_state" where
  "session_stop c w =
     (if c < length (connections w) \<and> session (connections w ! c) \<noteq> None
      then w\<lparr>connections := (connections w)
                [c := (connections w ! c)\<lparr>socket_open := False, fiber_open := False,
                                           session := Some Closed\<rparr>]\<rparr>
      else w)"

text \<open>
  Modelled from the spec: \<^verbatim>\<open>StopSession\<close>, the registry's \<open>stopOne\<close> (defined in the
  missing sockets\_to\_fibers.ipp): the session is torn down and erased from the registry.
\<close>

definition StopSession :: "nat \<Rightarrow> service_state \<Rightarrow> service_state" where
  "StopSession c w = erase c (session_stop c w)"

text \<open>
  Modelled from the spec: \<open>SessionRegistry.stopAll\<close> (\<^verbatim>\<open>ItemManager\<close> is missing). It
  snapshots the identifiers present, then stops each of them.
\<close>

definition stopAll :: "service_state \<Rightarrow> service_state" where
  "stopAll w = (let snapshot = registry w in foldl (\<lambda>w' c. StopSession c w') w snapshot)"

text \<open>
  Modelled from the spec: \<^verbatim>\<open>start\<close> (defined in the missing sockets\_to\_fibers.ipp; sections
  4.2 and 4.6). The argument says whether the bind succeeds. A started service refuses
  with \<open>AlreadyStarted\<close>; a bind failure leaves the service not started; a successful bind
  posts the first accept.
\<close>

definition start :: "bool \<Rightarrow> service_state \<Rightarrow> lifecycle_error option \<times> service_state" where
  "start bind_ok w =
     (if listening w then (Some AlreadyStarted, w)
      else if bind_ok then (None, w\<lparr>listening := True, accept_pending := True\<rparr>)
      else (Some BindFailure, w))"

text \<open>
  Modelled from the spec: the cancellation of the session operations in flight (defined,
  with \<^verbatim>\<open>stop\<close>, in the missing sockets\_to\_fibers.ipp; section 5: \<open>stop\<close> ``must cancel
  the pending accept and all in-flight session operations such that no further completion
  touches a freed resource''). A connection whose channel open is still pending has its
  socket closed, so the completion of that open finds nothing to do.
\<close>

definition cancel_pending_opens :: "service_state \<Rightarrow> service_state" where
  "cancel_pending_opens w =
     w\<lparr>connections :=
         map (\<lambda>x. if socket_open x \<and> session x = None then x\<lparr>socket_open := False\<rparr> else x)
           (connections w)\<rparr>"

text \<open>
  Modelled from the spec: \<^verbatim>\<open>stop\<close> (defined in the missing sockets\_to\_fibers.ipp; sections
  4.6 and 5). It closes the listening endpoint, which cancels the pending accept, calls
  \<open>stopAll\<close>, and releases what is left by cancelling the channel opens in flight. It
  reports no error.
\<close>

definition stop :: "service_state \<Rightarrow> lifecycle_error option \<times> service_state" where
  "stop w =
     (None, cancel_pending_opens (stopAll (w\<lparr>listening := False, accept_pending := False\<rparr>)))"

text \<open>
  Modelled from the spec: \<^verbatim>\<open>SocketAcceptHandler\<close> (defined in the missing
  sockets\_to\_fibers.ipp; sections 4.2 and 4.3). It is the completion of the pending accept,
  so it does nothing when none is pending. On success the new connection is recorded with
  its socket open, and its channel open is initiated: it is pending as long as the socket
  is open and no Session exists. On a transient error nothing changes. In both cases the
  next accept stays armed.
\<close>

definition SocketAcceptHandler :: "bool \<Rightarrow> service_state \<Rightarrow> service_state" where
  "SocketAcceptHandler ok w =
     (if accept_pending w \<and> listening w \<and> ok
      then w\<lparr>connections := connections w @
               [\<lparr>socket_open = True, fiber_open = False, session = None\<rparr>]\<rparr>
      else w)"

text \<open>
  Modelled from the spec: the channel open of connection \<open>c\<close> is pending (section 4.3; the
  SessionEstablisher is missing): the connection exists, its socket is open and no Session
  was constructed for it.
\<close>

definition open_pending :: "nat \<Rightarrow> service_state \<Rightarrow> bool" where
  "open_pending c w =
     (c < length (connections w) \<and> socket_open (connections w ! c) \<and>
      session (connections w ! c) = None)"

text \<open>
  Modelled from the spec: the update of one connection's socket, channel and Session (they
  are objects of classes that are not in the source).
\<close>

definition set_connection :: "nat \<Rightarrow> connection \<Rightarrow> service_state \<Rightarrow> service_state" where
  "set_connection c x w = w\<lparr>connections := (connections w)[c := x]\<rparr>"

text \<open>
  Modelled from the spec: \<^verbatim>\<open>FiberConnectHandler\<close> (defined in the missing
  sockets\_to\_fibers.ipp; section 4.3). It is the completion of the channel open of
  connection \<open>c\<close>, so it does nothing unless that open is pending. On success it constructs
  the Session (\<open>Connecting\<close>), inserts it into the registry and moves it to \<open>Relaying\<close>. On
  failure it closes the TCP socket and does nothing else.
\<close>

definition FiberConnectHandler :: "nat \<Rightarrow> bool \<Rightarrow> service_state \<Rightarrow> service_state" where
  "FiberConnectHandler c ok w =
     (if \<not> open_pending c w then w
      else if ok then
        (let constructed = set_connection c
               ((connections w ! c)\<lparr>fiber_open := True, session := Some Connecting\<rparr>) w;
             inserted = insert_session c constructed
         in set_connection c ((connections inserted ! c)\<lparr>session := Some Relaying\<rparr>) inserted)
      else set_connection c ((connections w ! c)\<lparr>socket_open := False\<rparr>) w)"

text \<open>
  Modelled from the spec: the events of an execution (section 5; the event loop is
  \<^verbatim>\<open>boost::asio\<close>'s and the callers are not in the source). The hosting framework calls \<open>start\<close> and \<open>stop\<close>; the event
  loop completes an accept or a channel open; a relay direction of a session ends (its
  self-initiated teardown); somebody stops one session from outside.
\<close>

datatype event =
    Start bool
  | Stop
  | Accept_completes bool
  | Fiber_connect_completes nat bool
  | Relay_ends nat
  | Stop_one nat

text \<open>
  Modelled from the spec: what each event runs. A relay end and an external stop of one
  session both go through \<open>StopSession\<close> (sections 4.4 and 4.5).
\<close>

fun step :: "service_state \<Rightarrow> event \<Rightarrow> service_state" where
  "step w (Start bind_ok) = snd (start bind_ok w)"
| "step w Stop = snd (stop w)"
| "step w (Accept_completes ok) = SocketAcceptHandler ok w"
| "step w (Fiber_connect_completes c ok) = FiberConnectHandler c ok w"
| "step w (Relay_ends c) = StopSession c w"
| "step w (Stop_one c) = StopSession c w"

text \<open>
  Modelled from the spec: an execution from state \<open>w\<close>, the handlers running one after the
  other (section 5, single-threaded cooperative event loop).
\<close>

definition run :: "service_state \<Rightarrow> event list \<Rightarrow> service_state" where
  "run w events = foldl step w events"

text \<open>
  The registry invariant of the specification's data model: the registry holds no
  identifier twice; it holds exactly the sessions that are \<open>Connecting\<close> or \<open>Relaying\<close>; and
  an identifier was removed once if its session is \<open>Closed\<close> and never otherwise.
\<close>

definition session_live :: "nat \<Rightarrow> service_state \<Rightarrow> bool" where
  "session_live c w =
     (c < length (connections w) \<and>
      (session (connections w ! c) = Some Connecting \<or>
       session (connections w ! c) = Some Relaying))"

definition session_closed :: "nat \<Rightarrow> service_state \<Rightarrow> bool" where
  "session_closed c w = (c < length (connections w) \<and> session (connections w ! c) = Some Closed)"

definition registry_invariant :: "service_state \<Rightarrow> bool" where
  "registry_invariant w =
     (distinct (registry w) \<and>
      (\<forall>c. (c \<in> set (registry w)) = session_live c w) \<and>
      (\<forall>c. removals w c = (if session_closed c w then 1 else 0)))"

text \<open>
  The endpoints follow the session: a \<open>Closed\<close> session has both endpoints closed, and a
  connection without a Session has no channel.
\<close>

definition endpoints_invariant :: "service_state \<Rightarrow> bool" where
  "endpoints_invariant w =
     (\<forall>c < length (connections w).
        (session (connections w ! c) = Some Closed \<longrightarrow>
           \<not> socket_open (connections w ! c) \<and> \<not> fiber_open (connections w ! c)) \<and>
        (session (connections w ! c) = None \<longrightarrow> \<not> fiber_open (connections w ! c)))"

text \<open>
  A service that holds no resource: no listening endpoint, no pending accept, an empty
  registry, and no connection with an open socket or channel.
\<close>

definition released :: "service_state \<Rightarrow> bool" where
  "released w =
     (\<not> listening w \<and> \<not> accept_pending w \<and> registry w = [] \<and>
      (\<forall>c < length (connections w).
         \<not> socket_open (connections w ! c) \<and> \<not> fiber_open (connections w ! c)))"

text \<open>A session after its teardown: \<open>Closed\<close>, with both endpoints closed.\<close>

definition torn_down :: "nat \<Rightarrow> service_state \<Rightarrow> bool" where
  "torn_down c w =
     (session_closed c w \<and> \<not> socket_open (connections w ! c) \<and>
      \<not> fiber_open (connections w ! c))"

text \<open>A connection whose establishment failed: socket closed, no Session.\<close>

definition discarded :: "nat \<Rightarrow> service_state \<Rightarrow> bool" where
  "discarded c w =
     (c < length (connections w) \<and> \<not> socket_open (connections w ! c) \<and>
      session (connections w ! c) = None)"

section \<open>Properties of the parser and the printer\<close>

lemma isdigit_not_isspace: "isdigit c \<Longrightarrow> \<not> isspace c"
  by (auto simp: isdigit_def isspace_def)

lemma isdigit_not_sign: "isdigit c \<Longrightarrow> c \<noteq> CHR ''-'' \<and> c \<noteq> CHR ''+''"
  by (auto simp: isdigit_def)

lemma decimal_value_snoc: "decimal_value (ds @ [c]) = 10 * decimal_value ds + digit_value c"
  by (simp add: decimal_value_def)

lemma isdigit_digit_char: "d < 10 \<Longrightarrow> isdigit (digit_char d)"
  by (simp add: isdigit_def digit_char_def)

lemma digit_value_digit_char: "d < 10 \<Longrightarrow> digit_value (digit_char d) = d"
  by (simp add: digit_value_def digit_char_def)

lemma to_string_digits: "to_string n \<noteq> [] \<and> list_all isdigit (to_string n)"
proof (induction n rule: to_string.induct)
  case (1 n)
  show ?case
  proof (cases "n < 10")
    case True
    then show ?thesis by (simp add: to_string.simps [of n] isdigit_digit_char)
  next
    case False
    with 1 show ?thesis by (simp add: to_string.simps [of n] isdigit_digit_char)
  qed
qed

lemma decimal_value_to_string: "decimal_value (to_string n) = n"
proof (induction n rule: to_string.induct)
  case (1 n)
  show ?case
  proof (cases "n < 10")
    case True
    then show ?thesis
      by (simp add: to_string.simps [of n] decimal_value_def digit_value_digit_char)
  next
    case False
    with 1 show ?thesis
      by (simp add: to_string.simps [of n] decimal_value_snoc digit_value_digit_char)
  qed
qed


lemma stoul_well_formed:
  assumes "well_formed_decimal s" and "decimal_value s < 2 ^ ulong_bits"
  shows "stoul ulong_bits s = Inr (decimal_value s)"
proof -
  from assms(1) obtain c cs where s: "s = c # cs" and c: "isdigit c" and cs: "list_all isdigit cs"
    by (cases s) (auto simp: well_formed_decimal_def)
  have "dropWhile isspace s = s"
    using s c by (simp add: isdigit_not_isspace)
  moreover have "read_sign s = (False, s)"
    using s isdigit_not_sign [OF c] by simp
  moreover have "takeWhile isdigit s = s"
    using s c cs by (simp add: list_all_iff)
  ultimately show ?thesis
    using assms(2) s by (simp add: stoul_def)
qed

lemma word32_gt_65535: "((of_nat n :: 32 word) > 65535) = (n mod 2 ^ 32 > 65535)"
  by (simp add: word_less_nat_alt unat_of_nat)

lemma two_32_le_ulong: "32 \<le> n \<Longrightarrow> (2::nat) ^ 32 \<le> 2 ^ n"
  by (rule power_increasing) simp_all

lemma unat_ucast_16: "unat (w :: 32 word) \<le> 65535 \<Longrightarrow> unat (ucast w :: 16 word) = unat w"
  by (simp add: unsigned_ucast_eq take_bit_eq_mod)


lemma stoul_port_syntax:
  assumes "port_syntax ws sign ds rest" and "decimal_value ds < 2 ^ ulong_bits"
  shows "stoul ulong_bits (ws @ sign @ ds @ rest) = Inr (signed_value ulong_bits sign ds)"
proof -
  from assms(1) have ws: "list_all isspace ws"
    and sign: "sign = [] \<or> sign = ''+'' \<or> sign = ''-''"
    and ds: "ds \<noteq> []" "list_all isdigit ds"
    and rest: "rest = [] \<or> \<not> isdigit (hd rest)"
    by (simp_all add: port_syntax_def)
  from ds obtain d ds' where d: "ds = d # ds'" "isdigit d"
    by (cases ds) auto
  have nospace: "\<not> isspace (hd (sign @ ds @ rest))" and nonempty: "sign @ ds @ rest \<noteq> []"
    using sign d isdigit_not_isspace [of d] by (auto simp: isspace_def)
  then have "dropWhile isspace (sign @ ds @ rest) = sign @ ds @ rest"
    by (cases "sign @ ds @ rest") simp_all
  with ws have drop: "dropWhile isspace (ws @ sign @ ds @ rest) = sign @ ds @ rest"
    by (simp add: dropWhile_append2 list_all_iff)
  have sgn: "read_sign (sign @ ds @ rest) = (sign = ''-'', ds @ rest)"
    using sign d isdigit_not_sign [of d] by auto
  have "takeWhile isdigit rest = []"
    using rest by (cases rest) simp_all
  with ds(2) have take: "takeWhile isdigit (ds @ rest) = ds"
    by (simp add: takeWhile_append2 list_all_iff)
  show ?thesis
    using assms(2) ds(1) by (simp add: stoul_def drop sgn take signed_value_def)
qed

section \<open>Create, case by case\<close>

lemmas evaluate = stoul_def isspace_def isdigit_def digit_value_def decimal_value_def
  digit_char_def char_of_eq_iff well_formed_decimal_def digit_run_def

lemma Create_absent:
  assumes "parameters ''local_addr'' = None \<or> parameters ''local_port'' = None \<or>
           parameters ''remote_port'' = None"
  shows "Create ulong_bits parameters gateway_ports = ([], None)"
  using assms by (auto simp: Create_def split: option.splits)

lemma Create_present:
  assumes "parameters ''local_addr'' = Some a"
    and "parameters ''local_port'' = Some l"
    and "parameters ''remote_port'' = Some r"
  shows "Create ulong_bits parameters gateway_ports =
     (let log = (if a \<noteq> [] \<and> \<not> gateway_ports
                 then [Warn_cannot_listen_without_gateway_ports a] else []);
          addr = (if a = [] \<or> \<not> gateway_ports then ''127.0.0.1''
                  else if a = ''*'' then ''0.0.0.0'' else a)
      in case stoul ulong_bits l of
           Inl _ \<Rightarrow> (log @ [Error_cannot_extract_port_parameters], None)
         | Inr lp \<Rightarrow>
            (case stoul ulong_bits r of
               Inl _ \<Rightarrow> (log @ [Error_cannot_extract_port_parameters], None)
             | Inr rp \<Rightarrow>
                if 65535 < (of_nat lp :: 32 word)
                then (log @ [Error_local_port_out_of_range (of_nat lp)], None)
                else (log, Some \<lparr>local_addr_m = addr,
                                 local_port_m = ucast (of_nat lp :: 32 word),
                                 remote_port_m = of_nat rp\<rparr>)))"
  using assms by (simp add: Create_def Let_def split: sum.splits)

lemma stoul_Inl_iff:
  "(\<exists>e. stoul ulong_bits s = Inl e) =
     (digit_run s = [] \<or> 2 ^ ulong_bits \<le> decimal_value (digit_run s))"
  by (auto simp: stoul_def digit_run_def Let_def split: prod.splits)

section \<open>Create: required keys\<close>

text \<open>
  C4. When any of the keys \<open>local_addr\<close>, \<open>local_port\<close>, \<open>remote_port\<close> is absent from the
  parameters map, \<open>Create\<close> returns the null pointer: no service object is constructed, and
  nothing is logged.
\<close>

theorem Create_missing_key:
  assumes "parameters ''local_addr'' = None \<or> parameters ''local_port'' = None \<or>
           parameters ''remote_port'' = None"
  shows "Create ulong_bits parameters gateway_ports = ([], None)"
  using assms by (rule Create_absent)

theorem Create_missing_key_witness:
  "Create 64 [''local_addr'' \<mapsto> ''*'', ''remote_port'' \<mapsto> ''42''] True = ([], None)"
  using Create_missing_key [of "[''local_addr'' \<mapsto> ''*'', ''remote_port'' \<mapsto> ''42'']" 64 True]
  by simp

section \<open>Create: the bind address\<close>

text \<open>
  C1. With all three keys present, the address of every service \<open>Create\<close> returns is resolved
  from \<open>local_addr\<close> and the gateway flag: the empty string gives \<open>127.0.0.1\<close>; \<open>*\<close> with
  gateway ports gives \<open>0.0.0.0\<close>; any other literal with gateway ports is taken verbatim; a
  non-empty string without gateway ports (\<open>*\<close> included) gives \<open>127.0.0.1\<close>, and the warning
  is the first thing logged. The address never rejects the creation: whether \<open>Create\<close>
  returns null does not depend on \<open>local_addr\<close> or on the flag.
\<close>

theorem Create_local_addr_resolution:
  assumes "parameters ''local_addr'' = Some a"
    and "parameters ''local_port'' = Some l"
    and "parameters ''remote_port'' = Some r"
  shows "(\<forall>svc. snd (Create ulong_bits parameters gateway_ports) = Some svc \<longrightarrow>
            (a = [] \<longrightarrow> local_addr_m svc = ''127.0.0.1'') \<and>
            (a = ''*'' \<and> gateway_ports \<longrightarrow> local_addr_m svc = ''0.0.0.0'') \<and>
            (a \<noteq> [] \<and> a \<noteq> ''*'' \<and> gateway_ports \<longrightarrow> local_addr_m svc = a) \<and>
            (a \<noteq> [] \<and> \<not> gateway_ports \<longrightarrow> local_addr_m svc = ''127.0.0.1''))
       \<and> (a \<noteq> [] \<and> \<not> gateway_ports \<longrightarrow>
            hd (fst (Create ulong_bits parameters gateway_ports)) =
              Warn_cannot_listen_without_gateway_ports a)
       \<and> (\<forall>a' g'. (snd (Create ulong_bits parameters gateway_ports) = None) =
                   (snd (Create ulong_bits (parameters(''local_addr'' \<mapsto> a')) g') = None))"
proof -
  have other: "(parameters(''local_addr'' \<mapsto> a')) ''local_addr'' = Some a'"
    "(parameters(''local_addr'' \<mapsto> a')) ''local_port'' = Some l"
    "(parameters(''local_addr'' \<mapsto> a')) ''remote_port'' = Some r" for a'
    using assms by simp_all
  show ?thesis
    by (simp add: Create_present [OF assms] Create_present [OF other] Let_def
        split: sum.splits)
qed

theorem Create_local_addr_resolution_witness:
  "\<exists>svc. snd (Create 64 [''local_addr'' \<mapsto> ''192.0.2.1'', ''local_port'' \<mapsto> ''9000'',
                          ''remote_port'' \<mapsto> ''42''] False) = Some svc
         \<and> local_addr_m svc = ''127.0.0.1''"
proof -
  let ?p = "[''local_addr'' \<mapsto> ''192.0.2.1'', ''local_port'' \<mapsto> ''9000'',
             ''remote_port'' \<mapsto> ''42'']"
  have h: "?p ''local_addr'' = Some ''192.0.2.1''" "?p ''local_port'' = Some ''9000''"
    "?p ''remote_port'' = Some ''42''"
    by simp_all
  obtain svc where s: "snd (Create 64 ?p False) = Some svc"
    by (simp add: Create_def evaluate)
  from Create_local_addr_resolution
         [where parameters = ?p and gateway_ports = False and ulong_bits = 64, OF h] s
  have "local_addr_m svc = ''127.0.0.1''"
    by simp
  with s show ?thesis
    by blast
qed


section \<open>Create: what a caller sees of a failure\<close>

text \<open>
  C9. Every failure of \<open>Create\<close> returns the same null pointer: a missing key, a port that
  \<^verbatim>\<open>std::stoul\<close> rejects, and a local port above 65535 all give \<open>None\<close>, and these are the
  only ways to get it. The return value does not tell them apart.
\<close>

theorem Create_failures_indistinguishable:
  "(parameters ''local_addr'' = None \<or> parameters ''local_port'' = None \<or>
      parameters ''remote_port'' = None
      \<longrightarrow> snd (Create ulong_bits parameters gateway_ports) = None)
   \<and> (\<forall>a l r. parameters ''local_addr'' = Some a \<and> parameters ''local_port'' = Some l \<and>
          parameters ''remote_port'' = Some r \<longrightarrow>
          ((\<exists>e. stoul ulong_bits l = Inl e) \<or> (\<exists>e. stoul ulong_bits r = Inl e)
             \<longrightarrow> snd (Create ulong_bits parameters gateway_ports) = None)
          \<and> (\<forall>lp rp. stoul ulong_bits l = Inr lp \<and> stoul ulong_bits r = Inr rp \<and>
                 65535 < lp mod 2 ^ 32
                 \<longrightarrow> snd (Create ulong_bits parameters gateway_ports) = None)
          \<and> (snd (Create ulong_bits parameters gateway_ports) = None \<longrightarrow>
                (\<exists>e. stoul ulong_bits l = Inl e) \<or> (\<exists>e. stoul ulong_bits r = Inl e) \<or>
                (\<exists>lp. stoul ulong_bits l = Inr lp \<and> 65535 < lp mod 2 ^ 32)))"
proof (intro conjI impI allI)
  assume "parameters ''local_addr'' = None \<or> parameters ''local_port'' = None \<or>
      parameters ''remote_port'' = None"
  then show "snd (Create ulong_bits parameters gateway_ports) = None"
    by (simp add: Create_absent)
next
  fix a l r
  assume p: "parameters ''local_addr'' = Some a \<and> parameters ''local_port'' = Some l \<and>
          parameters ''remote_port'' = Some r"
  then have c: "parameters ''local_addr'' = Some a" "parameters ''local_port'' = Some l"
    "parameters ''remote_port'' = Some r"
    by simp_all
  {
    assume "(\<exists>e. stoul ulong_bits l = Inl e) \<or> (\<exists>e. stoul ulong_bits r = Inl e)"
    then show "snd (Create ulong_bits parameters gateway_ports) = None"
      by (auto simp: Create_present [OF c] Let_def split: sum.splits)
  }
  {
    fix lp rp
    assume "stoul ulong_bits l = Inr lp \<and> stoul ulong_bits r = Inr rp \<and> 65535 < lp mod 2 ^ 32"
    then show "snd (Create ulong_bits parameters gateway_ports) = None"
      by (simp add: Create_present [OF c] Let_def word32_gt_65535)
  }
  {
    assume "snd (Create ulong_bits parameters gateway_ports) = None"
    then show "(\<exists>e. stoul ulong_bits l = Inl e) \<or> (\<exists>e. stoul ulong_bits r = Inl e) \<or>
                (\<exists>lp. stoul ulong_bits l = Inr lp \<and> 65535 < lp mod 2 ^ 32)"
      by (auto simp: Create_present [OF c] Let_def word32_gt_65535 split: sum.splits if_splits)
  }
qed

theorem Create_failures_indistinguishable_witness:
  "snd (Create 64 [''local_addr'' \<mapsto> '''', ''local_port'' \<mapsto> ''80''] True) = None
   \<and> snd (Create 64 [''local_addr'' \<mapsto> '''', ''local_port'' \<mapsto> ''http'',
                     ''remote_port'' \<mapsto> ''42''] True) = None
   \<and> snd (Create 64 [''local_addr'' \<mapsto> '''', ''local_port'' \<mapsto> ''70000'',
                     ''remote_port'' \<mapsto> ''42''] True) = None"
proof -
  let ?p1 = "[''local_addr'' \<mapsto> '''', ''local_port'' \<mapsto> ''80'']"
  let ?p2 = "[''local_addr'' \<mapsto> '''', ''local_port'' \<mapsto> ''http'', ''remote_port'' \<mapsto> ''42'']"
  let ?p3 = "[''local_addr'' \<mapsto> '''', ''local_port'' \<mapsto> ''70000'', ''remote_port'' \<mapsto> ''42'']"
  have "?p1 ''remote_port'' = None"
    by simp
  with Create_failures_indistinguishable [of ?p1 64 True]
  have 1: "snd (Create 64 ?p1 True) = None"
    by blast
  have "stoul 64 ''http'' = Inl Invalid_argument"
    by (simp add: evaluate)
  with Create_failures_indistinguishable [of ?p2 64 True]
  have 2: "snd (Create 64 ?p2 True) = None"
    by simp
  have "stoul 64 ''70000'' = Inr 70000" "stoul 64 ''42'' = Inr 42"
    by (simp_all add: evaluate)
  with Create_failures_indistinguishable [of ?p3 64 True]
  have 3: "snd (Create 64 ?p3 True) = None"
    by simp
  from 1 2 3 show ?thesis by simp
qed

section \<open>Create: the remote port\<close>

text \<open>
  C10. The remote port is not range-checked. Whenever the three keys are present, the local
  port parses and passes its check, and the remote port parses to \<open>rp\<close>, \<open>Create\<close> returns
  a service and logs no error; the service holds \<open>rp\<close> reduced modulo \<open>2 ^ 32\<close>, the
  \<^verbatim>\<open>uint32_t\<close> the parsed \<^verbatim>\<open>unsigned long\<close> was stored in.
\<close>

theorem Create_remote_port_unchecked:
  assumes "parameters ''local_addr'' = Some a"
    and "parameters ''local_port'' = Some l"
    and "parameters ''remote_port'' = Some r"
    and "stoul ulong_bits l = Inr lp" and "lp mod 2 ^ 32 \<le> 65535"
    and "stoul ulong_bits r = Inr rp"
  shows "\<exists>svc. snd (Create ulong_bits parameters gateway_ports) = Some svc \<and>
           unat (remote_port_m svc) = rp mod 2 ^ 32 \<and>
           Error_cannot_extract_port_parameters
             \<notin> set (fst (Create ulong_bits parameters gateway_ports)) \<and>
           (\<forall>w. Error_local_port_out_of_range w
             \<notin> set (fst (Create ulong_bits parameters gateway_ports)))"
  using assms(4-6)
  by (auto simp: Create_present [OF assms(1-3)] Let_def word32_gt_65535 unat_of_nat)

theorem Create_remote_port_unchecked_witness:
  "\<exists>svc. snd (Create 64 [''local_addr'' \<mapsto> '''', ''local_port'' \<mapsto> ''9000'',
                          ''remote_port'' \<mapsto> ''4294967338''] True) = Some svc \<and>
         unat (remote_port_m svc) = 42"
proof -
  let ?p = "[''local_addr'' \<mapsto> '''', ''local_port'' \<mapsto> ''9000'',
             ''remote_port'' \<mapsto> ''4294967338'']"
  have h: "?p ''local_addr'' = Some ''''" "?p ''local_port'' = Some ''9000''"
    "?p ''remote_port'' = Some ''4294967338''"
    by simp_all
  have l: "stoul 64 ''9000'' = Inr 9000"
    by (simp add: evaluate)
  have r: "stoul 64 ''4294967338'' = Inr 4294967338"
    by (simp add: evaluate)
  have b: "(9000::nat) mod 2 ^ 32 \<le> 65535"
    by simp
  from Create_remote_port_unchecked
         [where parameters = ?p and gateway_ports = True, OF h l b r]
  obtain svc where "snd (Create 64 ?p True) = Some svc"
    and "unat (remote_port_m svc) = 4294967338 mod 2 ^ 32"
    by blast
  then show ?thesis
    by simp
qed


section \<open>Create: parsing the ports\<close>

text \<open>
  C2, as stated, fails: a port string that is not a well-formed decimal integer can be
  accepted. \<open>80abc\<close> (characters after the digits) and \<open>+42\<close> (a sign) both parse, and
  \<open>Create\<close> returns a service listening on port 80 for channel port 42.
\<close>

theorem Create_accepts_trailing_characters:
  "\<not> well_formed_decimal ''80abc'' \<and>
   Create 64 [''local_addr'' \<mapsto> '''', ''local_port'' \<mapsto> ''80abc'', ''remote_port'' \<mapsto> ''+42'']
     False
   = ([], Some \<lparr>local_addr_m = ''127.0.0.1'', local_port_m = 80, remote_port_m = 42\<rparr>)"
  by (simp add: Create_def evaluate)

text \<open>
  C2, amended. With all three keys present, the ports are parsed as \<^verbatim>\<open>std::stoul\<close> does:
  leading white space is skipped, one optional sign is read, the digit run that follows is
  converted, and anything after it is ignored; after a minus sign the value is negated
  modulo \<open>2 ^ ulong_bits\<close>. \<open>Create\<close> returns null with the
  ``cannot extract port parameters'' error when the digit run of \<open>local_port\<close> or of
  \<open>remote_port\<close> is empty or denotes a value above \<^verbatim>\<open>ULONG_MAX\<close>, and logs that error in no
  other case. When both strings have the accepted shape and the number \<open>local_port\<close>
  denotes is at most 65535, \<open>Create\<close> returns a service that holds that number as its local
  port and the number \<open>remote_port\<close> denotes, modulo \<open>2 ^ 32\<close>, as its remote port. In
  particular well-formed decimal strings, \<open>local_port\<close> at most 65535 and \<open>remote_port\<close> below
  \<open>2 ^ 32\<close>, give a service holding exactly their values.
\<close>

theorem Create_port_parsing:
  assumes "parameters ''local_addr'' = Some a"
    and "parameters ''local_port'' = Some l"
    and "parameters ''remote_port'' = Some r"
  shows "(digit_run l = [] \<or> 2 ^ ulong_bits \<le> decimal_value (digit_run l) \<or>
          digit_run r = [] \<or> 2 ^ ulong_bits \<le> decimal_value (digit_run r)
          \<longrightarrow> snd (Create ulong_bits parameters gateway_ports) = None \<and>
              last (fst (Create ulong_bits parameters gateway_ports)) =
                Error_cannot_extract_port_parameters)
       \<and> (32 \<le> ulong_bits \<and> well_formed_decimal l \<and> decimal_value l \<le> 65535 \<and>
          well_formed_decimal r \<and> decimal_value r < 2 ^ 32
          \<longrightarrow> (\<exists>svc. snd (Create ulong_bits parameters gateway_ports) = Some svc \<and>
                 unat (local_port_m svc) = decimal_value l \<and>
                 unat (remote_port_m svc) = decimal_value r))
       \<and> (Error_cannot_extract_port_parameters
            \<in> set (fst (Create ulong_bits parameters gateway_ports))
          \<longrightarrow> digit_run l = [] \<or> 2 ^ ulong_bits \<le> decimal_value (digit_run l) \<or>
              digit_run r = [] \<or> 2 ^ ulong_bits \<le> decimal_value (digit_run r))
       \<and> (\<forall>wl sl dl tl wr sr dr tr.
            l = wl @ sl @ dl @ tl \<and> port_syntax wl sl dl tl \<and>
            decimal_value dl < 2 ^ ulong_bits \<and>
            r = wr @ sr @ dr @ tr \<and> port_syntax wr sr dr tr \<and>
            decimal_value dr < 2 ^ ulong_bits \<and>
            signed_value ulong_bits sl dl \<le> 65535
            \<longrightarrow> (\<exists>svc. snd (Create ulong_bits parameters gateway_ports) = Some svc \<and>
                   unat (local_port_m svc) = signed_value ulong_bits sl dl \<and>
                   unat (remote_port_m svc) = signed_value ulong_bits sr dr mod 2 ^ 32))"
proof (intro conjI impI allI)
  assume "digit_run l = [] \<or> 2 ^ ulong_bits \<le> decimal_value (digit_run l) \<or>
          digit_run r = [] \<or> 2 ^ ulong_bits \<le> decimal_value (digit_run r)"
  then have "(\<exists>e. stoul ulong_bits l = Inl e) \<or> (\<exists>e. stoul ulong_bits r = Inl e)"
    by (simp only: stoul_Inl_iff) blast
  then show "snd (Create ulong_bits parameters gateway_ports) = None"
    and "last (fst (Create ulong_bits parameters gateway_ports)) =
           Error_cannot_extract_port_parameters"
    by (auto simp: Create_present [OF assms] Let_def split: sum.splits)
next
  assume wf: "32 \<le> ulong_bits \<and> well_formed_decimal l \<and> decimal_value l \<le> 65535 \<and>
          well_formed_decimal r \<and> decimal_value r < 2 ^ 32"
  then have "(2::nat) ^ 32 \<le> 2 ^ ulong_bits"
    by (intro two_32_le_ulong) simp
  with wf have bl: "decimal_value l < 2 ^ ulong_bits" and br: "decimal_value r < 2 ^ ulong_bits"
    by simp_all
  from wf bl br have l: "stoul ulong_bits l = Inr (decimal_value l)"
    and r: "stoul ulong_bits r = Inr (decimal_value r)"
    by (simp_all add: stoul_well_formed)
  have "unat (of_nat (decimal_value l) :: 32 word) \<le> 65535"
    using wf by (simp add: unat_of_nat)
  then have "unat (ucast (of_nat (decimal_value l) :: 32 word) :: 16 word) = decimal_value l"
    using wf by (simp add: unat_ucast_16 unat_of_nat)
  then show "\<exists>svc. snd (Create ulong_bits parameters gateway_ports) = Some svc \<and>
                 unat (local_port_m svc) = decimal_value l \<and>
                 unat (remote_port_m svc) = decimal_value r"
    using wf by (simp add: Create_present [OF assms] Let_def l r word32_gt_65535 unat_of_nat)
next
  assume "Error_cannot_extract_port_parameters
            \<in> set (fst (Create ulong_bits parameters gateway_ports))"
  then have "(\<exists>e. stoul ulong_bits l = Inl e) \<or> (\<exists>e. stoul ulong_bits r = Inl e)"
    by (auto simp: Create_present [OF assms] Let_def split: sum.splits if_splits)
  then show "digit_run l = [] \<or> 2 ^ ulong_bits \<le> decimal_value (digit_run l) \<or>
              digit_run r = [] \<or> 2 ^ ulong_bits \<le> decimal_value (digit_run r)"
    by (simp only: stoul_Inl_iff) blast
next
  fix wl sl dl tl wr sr dr tr
  assume g: "l = wl @ sl @ dl @ tl \<and> port_syntax wl sl dl tl \<and>
            decimal_value dl < 2 ^ ulong_bits \<and>
            r = wr @ sr @ dr @ tr \<and> port_syntax wr sr dr tr \<and>
            decimal_value dr < 2 ^ ulong_bits \<and>
            signed_value ulong_bits sl dl \<le> 65535"
  then have l: "stoul ulong_bits l = Inr (signed_value ulong_bits sl dl)"
    and r: "stoul ulong_bits r = Inr (signed_value ulong_bits sr dr)"
    by (simp_all add: stoul_port_syntax)
  from g have small: "signed_value ulong_bits sl dl \<le> 65535"
    by simp
  then have "unat (of_nat (signed_value ulong_bits sl dl) :: 32 word) \<le> 65535"
    by (simp add: unat_of_nat)
  then have "unat (ucast (of_nat (signed_value ulong_bits sl dl) :: 32 word) :: 16 word)
               = signed_value ulong_bits sl dl"
    using small by (simp add: unat_ucast_16 unat_of_nat)
  then show "\<exists>svc. snd (Create ulong_bits parameters gateway_ports) = Some svc \<and>
                   unat (local_port_m svc) = signed_value ulong_bits sl dl \<and>
                   unat (remote_port_m svc) = signed_value ulong_bits sr dr mod 2 ^ 32"
    using small
    by (simp add: Create_present [OF assms] Let_def l r word32_gt_65535 unat_of_nat)
qed

theorem Create_port_parsing_witness:
  "snd (Create 64 [''local_addr'' \<mapsto> '''', ''local_port'' \<mapsto> ''+'', ''remote_port'' \<mapsto> ''42'']
          True) = None
   \<and> (\<exists>svc. snd (Create 64 [''local_addr'' \<mapsto> '''', ''local_port'' \<mapsto> ''9000'',
                              ''remote_port'' \<mapsto> ''42''] True) = Some svc
          \<and> unat (local_port_m svc) = 9000 \<and> unat (remote_port_m svc) = 42)
   \<and> (\<exists>svc. snd (Create 64 [''local_addr'' \<mapsto> '''', ''local_port'' \<mapsto> ''  80abc'',
                              ''remote_port'' \<mapsto> ''-1''] True) = Some svc
          \<and> unat (local_port_m svc) = 80 \<and> unat (remote_port_m svc) = 4294967295)"
proof -
  let ?p = "[''local_addr'' \<mapsto> '''', ''local_port'' \<mapsto> ''+'', ''remote_port'' \<mapsto> ''42'']"
  let ?q = "[''local_addr'' \<mapsto> '''', ''local_port'' \<mapsto> ''9000'', ''remote_port'' \<mapsto> ''42'']"
  let ?s = "[''local_addr'' \<mapsto> '''', ''local_port'' \<mapsto> ''  80abc'', ''remote_port'' \<mapsto> ''-1'']"
  have hp: "?p ''local_addr'' = Some ''''" "?p ''local_port'' = Some ''+''"
    "?p ''remote_port'' = Some ''42''"
    by simp_all
  have hq: "?q ''local_addr'' = Some ''''" "?q ''local_port'' = Some ''9000''"
    "?q ''remote_port'' = Some ''42''"
    by simp_all
  have hs: "?s ''local_addr'' = Some ''''" "?s ''local_port'' = Some ''  80abc''"
    "?s ''remote_port'' = Some ''-1''"
    by simp_all
  have d: "digit_run ''+'' = []"
    by (simp add: evaluate)
  have w: "well_formed_decimal ''9000''" "well_formed_decimal ''42''"
    "decimal_value ''9000'' = 9000" "decimal_value ''42'' = 42"
    by (simp_all add: evaluate)
  have g: "''  80abc'' = ''  '' @ [] @ ''80'' @ ''abc''" "port_syntax ''  '' [] ''80'' ''abc''"
    "decimal_value ''80'' < 2 ^ 64"
    "''-1'' = [] @ ''-'' @ ''1'' @ []" "port_syntax [] ''-'' ''1'' []"
    "decimal_value ''1'' < 2 ^ 64"
    by (simp_all add: port_syntax_def evaluate)
  have v: "signed_value 64 [] ''80'' = 80" "signed_value 64 ''-'' ''1'' mod 2 ^ 32 = 4294967295"
    by (simp_all add: signed_value_def evaluate)
  from Create_port_parsing [where parameters = ?p and gateway_ports = True and ulong_bits = 64,
      OF hp] d
  have 1: "snd (Create 64 ?p True) = None"
    by simp
  from Create_port_parsing [where parameters = ?q and gateway_ports = True and ulong_bits = 64,
      OF hq] w
  have 2: "\<exists>svc. snd (Create 64 ?q True) = Some svc
          \<and> unat (local_port_m svc) = 9000 \<and> unat (remote_port_m svc) = 42"
    by simp
  have "\<forall>wl sl dl tl wr sr dr tr.
     ''  80abc'' = wl @ sl @ dl @ tl \<and> port_syntax wl sl dl tl \<and> decimal_value dl < 2 ^ 64 \<and>
     ''-1'' = wr @ sr @ dr @ tr \<and> port_syntax wr sr dr tr \<and> decimal_value dr < 2 ^ 64 \<and>
     signed_value 64 sl dl \<le> 65535
     \<longrightarrow> (\<exists>svc. snd (Create 64 ?s True) = Some svc \<and>
            unat (local_port_m svc) = signed_value 64 sl dl \<and>
            unat (remote_port_m svc) = signed_value 64 sr dr mod 2 ^ 32)"
    using Create_port_parsing [where parameters = ?s and gateway_ports = True
        and ulong_bits = 64, OF hs]
    by blast
  then have "''  80abc'' = ''  '' @ [] @ ''80'' @ ''abc'' \<and> port_syntax ''  '' [] ''80'' ''abc'' \<and>
     decimal_value ''80'' < 2 ^ 64 \<and>
     ''-1'' = [] @ ''-'' @ ''1'' @ [] \<and> port_syntax [] ''-'' ''1'' [] \<and>
     decimal_value ''1'' < 2 ^ 64 \<and> signed_value 64 [] ''80'' \<le> 65535
     \<longrightarrow> (\<exists>svc. snd (Create 64 ?s True) = Some svc \<and>
            unat (local_port_m svc) = signed_value 64 [] ''80'' \<and>
            unat (remote_port_m svc) = signed_value 64 ''-'' ''1'' mod 2 ^ 32)"
    by (elim allE)
  with g v have 3: "\<exists>svc. snd (Create 64 ?s True) = Some svc
          \<and> unat (local_port_m svc) = 80 \<and> unat (remote_port_m svc) = 4294967295"
    by simp
  from 1 2 3 show ?thesis
    by blast
qed

section \<open>Create: the range of the local port\<close>

text \<open>
  C3. Where \<^verbatim>\<open>unsigned long\<close> has 64 bits, \<^verbatim>\<open>std::stoul\<close> parses \<open>4294967376\<close>
  (\<open>2 ^ 32 + 80\<close>), which is above 65535. The value is stored in a \<^verbatim>\<open>uint32_t\<close> before it
  is compared with 65535, so the check sees 80 and \<open>Create\<close> returns a service on port 80
  instead of failing.
\<close>

theorem Create_local_port_wraps:
  "stoul 64 ''4294967376'' = Inr 4294967376 \<and>
   Create 64 [''local_addr'' \<mapsto> '''', ''local_port'' \<mapsto> ''4294967376'', ''remote_port'' \<mapsto> ''42'']
     False
   = ([], Some \<lparr>local_addr_m = ''127.0.0.1'', local_port_m = 80, remote_port_m = 42\<rparr>)"
  by (simp add: Create_def evaluate)


section \<open>GetCreateRequest, then Create\<close>

text \<open>
  C5, as stated, fails for two addresses: the request built for the empty \<open>local_addr\<close>
  creates a service on \<open>127.0.0.1\<close>, and the one built for \<open>*\<close> a service on \<open>0.0.0.0\<close>;
  neither holds the original string.
\<close>

theorem GetCreateRequest_empty_local_addr:
  "map_option local_addr_m
     (snd (Create 64 (parameters_m (GetCreateRequest 4 '''' 9000 42)) True)) = Some ''127.0.0.1''
   \<and> map_option local_addr_m
     (snd (Create 64 (parameters_m (GetCreateRequest 4 ''*'' 9000 42)) True)) = Some ''0.0.0.0''"
  by (simp add: Create_def GetCreateRequest_def add_parameter_def to_string.simps evaluate)

text \<open>
  C5, amended. For every \<open>local_addr\<close>, every \<open>local_port\<close> up to 65535 and every
  \<open>remote_port\<close> below \<open>2 ^ 32\<close> (with \<^verbatim>\<open>unsigned long\<close> of at least 32 bits), the request
  built by \<open>GetCreateRequest\<close> carries \<open>kFactoryId\<close>, and \<open>Create\<close> with gateway ports
  enabled accepts its parameters without logging anything. The service holds the same two
  ports, and the same address unless \<open>local_addr\<close> is empty (then \<open>127.0.0.1\<close>) or \<open>*\<close>
  (then \<open>0.0.0.0\<close>).
\<close>

theorem GetCreateRequest_Create_roundtrip:
  assumes "32 \<le> ulong_bits" and "local_port \<le> 65535" and "remote_port < 2 ^ 32"
  shows "service_id_m (GetCreateRequest kFactoryId local_addr local_port remote_port) = kFactoryId
     \<and> (\<exists>svc. Create ulong_bits
                 (parameters_m (GetCreateRequest kFactoryId local_addr local_port remote_port))
                 True = ([], Some svc) \<and>
          local_addr_m svc =
            (if local_addr = [] then ''127.0.0.1''
             else if local_addr = ''*'' then ''0.0.0.0'' else local_addr) \<and>
          unat (local_port_m svc) = local_port \<and>
          unat (remote_port_m svc) = remote_port)"
proof -
  let ?req = "GetCreateRequest kFactoryId local_addr local_port remote_port"
  have p: "parameters_m ?req ''local_addr'' = Some local_addr"
    "parameters_m ?req ''local_port'' = Some (to_string local_port)"
    "parameters_m ?req ''remote_port'' = Some (to_string remote_port)"
    by (simp_all add: GetCreateRequest_def add_parameter_def)
  have "(2::nat) ^ 32 \<le> 2 ^ ulong_bits"
    using assms(1) by (rule two_32_le_ulong)
  with assms have "local_port < 2 ^ ulong_bits" and "remote_port < 2 ^ ulong_bits"
    by simp_all
  then have l: "stoul ulong_bits (to_string local_port) = Inr local_port"
    and r: "stoul ulong_bits (to_string remote_port) = Inr remote_port"
    using stoul_well_formed [of "to_string local_port" ulong_bits]
      stoul_well_formed [of "to_string remote_port" ulong_bits]
    by (simp_all add: well_formed_decimal_def to_string_digits decimal_value_to_string)
  have "unat (of_nat local_port :: 32 word) \<le> 65535"
    using assms(2) by (simp add: unat_of_nat)
  then have "unat (ucast (of_nat local_port :: 32 word) :: 16 word) = local_port"
    using assms(2) by (simp add: unat_ucast_16 unat_of_nat)
  moreover have "service_id_m ?req = kFactoryId"
    by (simp add: GetCreateRequest_def add_parameter_def)
  ultimately show ?thesis
    using assms(2,3)
    by (simp add: Create_present [OF p] Let_def l r word32_gt_65535 unat_of_nat)
qed

theorem GetCreateRequest_Create_roundtrip_witness:
  "\<exists>svc. Create 64 (parameters_m (GetCreateRequest 4 ''192.0.2.1'' 9000 42)) True = ([], Some svc)
         \<and> local_addr_m svc = ''192.0.2.1'' \<and> unat (local_port_m svc) = 9000
         \<and> unat (remote_port_m svc) = 42"
proof -
  have "(32::nat) \<le> 64" and "(9000::nat) \<le> 65535" and "(42::nat) < 2 ^ 32"
    by simp_all
  from GetCreateRequest_Create_roundtrip [OF this, of 4 "''192.0.2.1''"]
  show ?thesis
    by simp
qed

section \<open>The registry invariant\<close>

lemmas runtime_defs = run_def initial_def start_def stop_def stopAll_def StopSession_def
  cancel_pending_opens_def
  session_stop_def erase_def insert_session_def SocketAcceptHandler_def FiberConnectHandler_def
  open_pending_def set_connection_def

lemma registry_invariant_initial: "registry_invariant initial"
  by (simp add: registry_invariant_def initial_def session_live_def session_closed_def)

lemma erase_fields:
  "registry (erase c w) = removeAll c (registry w)"
  "connections (erase c w) = connections w"
  "listening (erase c w) = listening w"
  "accept_pending (erase c w) = accept_pending w"
  by (simp_all add: erase_def)

lemma session_stop_fields:
  "registry (session_stop c w) = registry w"
  "removals (session_stop c w) = removals w"
  "listening (session_stop c w) = listening w"
  "accept_pending (session_stop c w) = accept_pending w"
  "length (connections (session_stop c w)) = length (connections w)"
  by (simp_all add: session_stop_def)

lemma StopSession_fields:
  "registry (StopSession c w) = removeAll c (registry w)"
  "listening (StopSession c w) = listening w"
  "accept_pending (StopSession c w) = accept_pending w"
  "connections (StopSession c w) = connections (session_stop c w)"
  by (simp_all add: StopSession_def erase_fields session_stop_fields)

lemma session_live_stop:
  "session_live d (session_stop c w) = (d \<noteq> c \<and> session_live d w)"
  by (auto simp: session_live_def session_stop_def nth_list_update)

lemma session_closed_stop:
  "session_closed d (session_stop c w) =
     (session_closed d w \<or>
      (d = c \<and> c < length (connections w) \<and> session (connections w ! c) \<noteq> None))"
  by (auto simp: session_closed_def session_stop_def nth_list_update)

lemma session_live_erase: "session_live d (erase c w) = session_live d w"
  by (simp add: session_live_def erase_fields)

lemma session_closed_erase: "session_closed d (erase c w) = session_closed d w"
  by (simp add: session_closed_def erase_fields)

lemma session_live_StopSession:
  "session_live d (StopSession c w) = (d \<noteq> c \<and> session_live d w)"
  by (simp add: StopSession_def session_live_erase session_live_stop)

lemma session_closed_StopSession:
  "session_closed d (StopSession c w) =
     (session_closed d w \<or>
      (d = c \<and> c < length (connections w) \<and> session (connections w ! c) \<noteq> None))"
  by (simp add: StopSession_def session_closed_erase session_closed_stop)

lemma removals_StopSession:
  "removals (StopSession c w) d =
     (if d = c \<and> c \<in> set (registry w) then Suc (removals w c) else removals w d)"
  by (simp add: StopSession_def erase_def session_stop_fields)

lemma session_cases:
  "session_live c w \<or> session_closed c w \<or>
   \<not> (c < length (connections w) \<and> session (connections w ! c) \<noteq> None)"
proof (cases "session (connections w ! c)")
  case None
  then show ?thesis by simp
next
  case (Some s)
  then show ?thesis
    by (cases s) (simp_all add: session_live_def session_closed_def)
qed

lemma registry_invariant_StopSession:
  assumes "registry_invariant w"
  shows "registry_invariant (StopSession c w)"
proof -
  from assms have d: "distinct (registry w)"
    and m: "\<And>x. (x \<in> set (registry w)) = session_live x w"
    and r: "\<And>x. removals w x = (if session_closed x w then 1 else 0)"
    by (simp_all add: registry_invariant_def)
  have "distinct (registry (StopSession c w))"
    using d by (simp add: StopSession_fields distinct_removeAll)
  moreover have "(x \<in> set (registry (StopSession c w))) = session_live x (StopSession c w)" for x
    using m [of x] by (auto simp: StopSession_fields session_live_StopSession)
  moreover have "removals (StopSession c w) x =
      (if session_closed x (StopSession c w) then 1 else 0)" for x
  proof (cases "x = c")
    case False
    then show ?thesis
      using r [of x] by (simp add: removals_StopSession session_closed_StopSession)
  next
    case True
    from session_cases [of c w] show ?thesis
    proof (elim disjE)
      assume l: "session_live c w"
      then have "\<not> session_closed c w" and "c < length (connections w)"
        and "session (connections w ! c) \<noteq> None"
        by (auto simp: session_live_def session_closed_def)
      with l True show ?thesis
        using r [of c] m [of c]
        by (simp add: removals_StopSession session_closed_StopSession)
    next
      assume cl: "session_closed c w"
      then have "\<not> session_live c w"
        by (auto simp: session_live_def session_closed_def)
      with cl True show ?thesis
        using r [of c] m [of c]
        by (simp add: removals_StopSession session_closed_StopSession)
    next
      assume n: "\<not> (c < length (connections w) \<and> session (connections w ! c) \<noteq> None)"
      then have "\<not> session_live c w" and "\<not> session_closed c w"
        by (auto simp: session_live_def session_closed_def)
      with n True show ?thesis
        using r [of c] m [of c]
        by (simp add: removals_StopSession session_closed_StopSession)
    qed
  qed
  ultimately show ?thesis
    by (simp add: registry_invariant_def)
qed

lemma registry_invariant_fold_StopSession:
  "registry_invariant w \<Longrightarrow> registry_invariant (foldl (\<lambda>w' c. StopSession c w') w cs)"
  by (induction cs arbitrary: w) (simp_all add: registry_invariant_StopSession)

lemma registry_invariant_flags:
  "registry_invariant (w\<lparr>listening := a, accept_pending := b\<rparr>) = registry_invariant w"
  by (simp add: registry_invariant_def session_live_def session_closed_def)

lemma cancel_fields:
  "registry (cancel_pending_opens w) = registry w"
  "removals (cancel_pending_opens w) = removals w"
  "listening (cancel_pending_opens w) = listening w"
  "accept_pending (cancel_pending_opens w) = accept_pending w"
  "length (connections (cancel_pending_opens w)) = length (connections w)"
  by (simp_all add: cancel_pending_opens_def)

lemma connections_cancel:
  "c < length (connections w) \<Longrightarrow>
   connections (cancel_pending_opens w) ! c =
     (if socket_open (connections w ! c) \<and> session (connections w ! c) = None
      then (connections w ! c)\<lparr>socket_open := False\<rparr> else connections w ! c)"
  by (simp add: cancel_pending_opens_def)

lemma session_cancel:
  "c < length (connections w) \<Longrightarrow>
   session (connections (cancel_pending_opens w) ! c) = session (connections w ! c)"
  by (simp add: connections_cancel)

lemma session_live_cancel: "session_live c (cancel_pending_opens w) = session_live c w"
  by (simp add: session_live_def cancel_fields session_cancel cong: conj_cong)

lemma session_closed_cancel: "session_closed c (cancel_pending_opens w) = session_closed c w"
  by (simp add: session_closed_def cancel_fields session_cancel cong: conj_cong)

lemma registry_invariant_cancel:
  "registry_invariant (cancel_pending_opens w) = registry_invariant w"
  by (simp add: registry_invariant_def cancel_fields session_live_cancel session_closed_cancel)

lemma registry_invariant_stop:
  "registry_invariant w \<Longrightarrow> registry_invariant (snd (stop w))"
  by (simp add: stop_def stopAll_def registry_invariant_cancel
      registry_invariant_fold_StopSession registry_invariant_flags)

lemma registry_invariant_start:
  "registry_invariant w \<Longrightarrow> registry_invariant (snd (start ok w))"
  by (simp add: start_def registry_invariant_flags)

lemma registry_invariant_accept:
  assumes "registry_invariant w"
  shows "registry_invariant (SocketAcceptHandler ok w)"
proof (cases "accept_pending w \<and> listening w \<and> ok")
  case False
  with assms show ?thesis
    by (auto simp: SocketAcceptHandler_def)
next
  case True
  have l: "session_live c (w\<lparr>connections := connections w @ [n]\<rparr>) = session_live c w"
    if "session n = None" for c n
    using that by (auto simp: session_live_def nth_append)
  have c: "session_closed c (w\<lparr>connections := connections w @ [n]\<rparr>) = session_closed c w"
    if "session n = None" for c n
    using that by (auto simp: session_closed_def nth_append)
  from assms True show ?thesis
    by (simp add: SocketAcceptHandler_def registry_invariant_def l c)
qed

lemma registry_invariant_fiber_connect:
  assumes "registry_invariant w"
  shows "registry_invariant (FiberConnectHandler c ok w)"
proof (cases "open_pending c w")
  case False
  with assms show ?thesis
    by (simp add: FiberConnectHandler_def)
next
  case True
  then have len: "c < length (connections w)" and none: "session (connections w ! c) = None"
    by (simp_all add: open_pending_def)
  from assms have d: "distinct (registry w)"
    and m: "\<And>x. (x \<in> set (registry w)) = session_live x w"
    and r: "\<And>x. removals w x = (if session_closed x w then 1 else 0)"
    by (simp_all add: registry_invariant_def)
  from none have nl: "\<not> session_live c w" and nc: "\<not> session_closed c w"
    by (simp_all add: session_live_def session_closed_def)
  show ?thesis
  proof (cases ok)
    case False
    let ?w = "set_connection c ((connections w ! c)\<lparr>socket_open := False\<rparr>) w"
    have "session_live x ?w = session_live x w" for x
      using len by (auto simp: session_live_def set_connection_def nth_list_update)
    moreover have "session_closed x ?w = session_closed x w" for x
      using len by (auto simp: session_closed_def set_connection_def nth_list_update)
    moreover have "registry ?w = registry w" and "removals ?w = removals w"
      by (simp_all add: set_connection_def)
    ultimately have "registry_invariant ?w"
      using assms by (simp add: registry_invariant_def)
    with True False show ?thesis
      by (simp add: FiberConnectHandler_def)
  next
    case ok: True
    let ?w = "FiberConnectHandler c True w"
    have reg: "registry ?w = registry w @ [c]" and rem: "removals ?w = removals w"
      using True by (simp_all add: FiberConnectHandler_def set_connection_def insert_session_def)
    have live: "session_live x ?w = (x = c \<or> session_live x w)" for x
      using True len nl
      by (auto simp: FiberConnectHandler_def set_connection_def insert_session_def
          session_live_def nth_list_update)
    have cl: "session_closed x ?w = session_closed x w" for x
      using True len nc
      by (auto simp: FiberConnectHandler_def set_connection_def insert_session_def
          session_closed_def nth_list_update)
    have "distinct (registry ?w)"
      using d m [of c] nl by (simp add: reg)
    moreover have "(x \<in> set (registry ?w)) = session_live x ?w" for x
      using m [of x] by (auto simp: reg live)
    moreover have "removals ?w x = (if session_closed x ?w then 1 else 0)" for x
      using r [of x] by (simp add: rem cl)
    ultimately show ?thesis
      using ok by (simp add: registry_invariant_def)
  qed
qed

lemma registry_invariant_step:
  "registry_invariant w \<Longrightarrow> registry_invariant (step w e)"
  by (cases e)
    (simp_all add: registry_invariant_start registry_invariant_stop registry_invariant_accept
      registry_invariant_fiber_connect registry_invariant_StopSession)

lemma registry_invariant_run:
  "registry_invariant w \<Longrightarrow> registry_invariant (run w events)"
  unfolding run_def
  by (induction events arbitrary: w) (simp_all add: registry_invariant_step)

lemma erase_absent: "c \<notin> set (registry w) \<Longrightarrow> erase c w = w"
  by (simp add: erase_def)

text \<open>
  C6. In every state reachable from the initial one by any interleaving of starts, stops,
  accept and channel-open completions, relay ends and external stops of single sessions:
  the registry holds no identifier twice; a session is in the registry if and only if it is
  \<open>Connecting\<close> or \<open>Relaying\<close>; an identifier has been removed exactly once if its session
  is \<open>Closed\<close> and never otherwise, so no identifier is ever removed twice; and \<open>erase\<close> of
  an absent identifier changes nothing.
\<close>

theorem registry_invariant_reachable:
  "distinct (registry (run initial events))
   \<and> (\<forall>c. (c \<in> set (registry (run initial events))) = session_live c (run initial events))
   \<and> (\<forall>c. removals (run initial events) c =
          (if session_closed c (run initial events) then 1 else 0))
   \<and> (\<forall>c. removals (run initial events) c \<le> 1)
   \<and> (\<forall>c. c \<notin> set (registry (run initial events)) \<longrightarrow>
          erase c (run initial events) = run initial events)"
proof -
  have "registry_invariant (run initial events)"
    by (rule registry_invariant_run) (rule registry_invariant_initial)
  then show ?thesis
    by (simp add: registry_invariant_def erase_absent)
qed

theorem registry_invariant_reachable_witness:
  "removals (run initial [Start True, Accept_completes True, Fiber_connect_completes 0 True,
      Relay_ends 0, Stop_one 0, Stop]) 0 = 1
   \<and> 0 \<notin> set (registry (run initial [Start True, Accept_completes True,
      Fiber_connect_completes 0 True, Relay_ends 0, Stop_one 0, Stop]))"
proof -
  let ?w = "run initial [Start True, Accept_completes True, Fiber_connect_completes 0 True,
      Relay_ends 0, Stop_one 0, Stop]"
  have c: "session_closed 0 ?w"
    by (simp add: session_closed_def runtime_defs)
  then have "\<not> session_live 0 ?w"
    by (simp add: session_closed_def session_live_def)
  with c registry_invariant_reachable [of "[Start True, Accept_completes True,
      Fiber_connect_completes 0 True, Relay_ends 0, Stop_one 0, Stop]"]
  show ?thesis
    by simp
qed

section \<open>stop\<close>

lemma registry_fold_StopSession:
  "registry (foldl (\<lambda>w' c. StopSession c w') w cs) = filter (\<lambda>x. x \<notin> set cs) (registry w)"
proof (induction cs arbitrary: w)
  case Nil
  then show ?case by simp
next
  case (Cons c cs)
  have "filter (\<lambda>x. x \<notin> set cs) (removeAll c (registry w))
          = filter (\<lambda>x. x \<notin> set (c # cs)) (registry w)"
    by (induction "registry w") (auto simp: removeAll_filter_not_eq intro: filter_cong)
  with Cons show ?case
    by (simp add: StopSession_fields)
qed

lemma flags_fold_StopSession:
  "listening (foldl (\<lambda>w' c. StopSession c w') w cs) = listening w"
  "accept_pending (foldl (\<lambda>w' c. StopSession c w') w cs) = accept_pending w"
  by (induction cs arbitrary: w) (simp_all add: StopSession_fields)

lemma connections_StopSession:
  "length (connections (StopSession c w)) = length (connections w)"
  "connections (StopSession c w) ! d =
     (if d = c \<and> c < length (connections w) \<and> session (connections w ! c) \<noteq> None
      then (connections w ! c)\<lparr>socket_open := False, fiber_open := False,
                                session := Some Closed\<rparr>
      else connections w ! d)"
  by (auto simp: StopSession_def erase_fields session_stop_def nth_list_update)

lemma torn_down_StopSession_same:
  "session_live c w \<or> torn_down c w \<Longrightarrow> torn_down c (StopSession c w)"
  by (auto simp: torn_down_def session_live_def session_closed_def connections_StopSession)

lemma torn_down_StopSession_other:
  "torn_down c w \<Longrightarrow> torn_down c (StopSession d w)"
  by (auto simp: torn_down_def session_closed_def connections_StopSession)

lemma torn_down_fold_StopSession:
  "torn_down c w \<or> (session_live c w \<and> c \<in> set cs)
     \<Longrightarrow> torn_down c (foldl (\<lambda>w' d. StopSession d w') w cs)"
proof (induction cs arbitrary: w)
  case Nil
  then show ?case by simp
next
  case (Cons d cs)
  have "torn_down c (StopSession d w) \<or> (session_live c (StopSession d w) \<and> c \<in> set cs)"
  proof (cases "torn_down c w")
    case True
    then show ?thesis by (simp add: torn_down_StopSession_other)
  next
    case False
    with Cons.prems have l: "session_live c w" and m: "c \<in> set (d # cs)"
      by simp_all
    show ?thesis
    proof (cases "d = c")
      case True
      with l show ?thesis by (simp add: torn_down_StopSession_same)
    next
      case False
      with l m show ?thesis by (simp add: session_live_StopSession)
    qed
  qed
  then show ?case
    using Cons.IH [of "StopSession d w"] by simp
qed

lemma torn_down_cancel: "torn_down c w \<Longrightarrow> torn_down c (cancel_pending_opens w)"
  by (auto simp: torn_down_def session_closed_def cancel_fields connections_cancel)

lemma stop_flags:
  "\<not> listening (snd (stop w))" "\<not> accept_pending (snd (stop w))"
  "registry (snd (stop w)) = []"
  by (simp_all add: stop_def stopAll_def cancel_fields flags_fold_StopSession
      registry_fold_StopSession)

lemma stop_length: "length (connections (snd (stop w))) = length (connections w)"
proof -
  have "length (connections (foldl (\<lambda>w' c. StopSession c w') v cs)) = length (connections v)"
    for v cs
    by (induction cs arbitrary: v) (simp_all add: connections_StopSession)
  then show ?thesis
    by (simp add: stop_def stopAll_def cancel_fields)
qed

lemma endpoints_invariant_initial: "endpoints_invariant initial"
  by (simp add: endpoints_invariant_def initial_def)

lemma endpoints_invariant_flags:
  "endpoints_invariant (w\<lparr>listening := a, accept_pending := b\<rparr>) = endpoints_invariant w"
  by (simp add: endpoints_invariant_def)

lemma endpoints_invariant_StopSession:
  "endpoints_invariant w \<Longrightarrow> endpoints_invariant (StopSession c w)"
  by (simp add: endpoints_invariant_def connections_StopSession)

lemma endpoints_invariant_fold_StopSession:
  "endpoints_invariant w \<Longrightarrow> endpoints_invariant (foldl (\<lambda>w' c. StopSession c w') w cs)"
  by (induction cs arbitrary: w) (simp_all add: endpoints_invariant_StopSession)

lemma endpoints_invariant_cancel:
  "endpoints_invariant w \<Longrightarrow> endpoints_invariant (cancel_pending_opens w)"
  by (simp add: endpoints_invariant_def cancel_fields connections_cancel)

lemma endpoints_invariant_stop:
  "endpoints_invariant w \<Longrightarrow> endpoints_invariant (snd (stop w))"
  by (simp add: stop_def stopAll_def endpoints_invariant_cancel
      endpoints_invariant_fold_StopSession endpoints_invariant_flags)

lemma endpoints_invariant_start:
  "endpoints_invariant w \<Longrightarrow> endpoints_invariant (snd (start ok w))"
  by (simp add: start_def endpoints_invariant_flags)

lemma endpoints_invariant_accept:
  "endpoints_invariant w \<Longrightarrow> endpoints_invariant (SocketAcceptHandler ok w)"
  by (auto simp: endpoints_invariant_def SocketAcceptHandler_def nth_append)

lemma endpoints_invariant_fiber_connect:
  "endpoints_invariant w \<Longrightarrow> endpoints_invariant (FiberConnectHandler c ok w)"
  by (auto simp: endpoints_invariant_def FiberConnectHandler_def open_pending_def
      set_connection_def insert_session_def nth_list_update)

lemma endpoints_invariant_step:
  "endpoints_invariant w \<Longrightarrow> endpoints_invariant (step w e)"
  by (cases e)
    (simp_all add: endpoints_invariant_start endpoints_invariant_stop
      endpoints_invariant_accept endpoints_invariant_fiber_connect
      endpoints_invariant_StopSession)

lemma endpoints_invariant_run:
  "endpoints_invariant w \<Longrightarrow> endpoints_invariant (run w events)"
  unfolding run_def
  by (induction events arbitrary: w) (simp_all add: endpoints_invariant_step)

lemma stop_no_pending:
  "c < length (connections (snd (stop w))) \<Longrightarrow>
   \<not> (socket_open (connections (snd (stop w)) ! c) \<and>
      session (connections (snd (stop w)) ! c) = None)"
  by (simp add: stop_def cancel_fields connections_cancel)

lemma released_stop:
  assumes "registry_invariant w" and "endpoints_invariant w"
  shows "released (snd (stop w))"
proof -
  let ?v = "snd (stop w)"
  have ri: "registry_invariant ?v"
    using assms(1) by (rule registry_invariant_stop)
  have ei: "endpoints_invariant ?v"
    using assms(2) by (rule endpoints_invariant_stop)
  have "\<not> socket_open (connections ?v ! c) \<and> \<not> fiber_open (connections ?v ! c)"
    if c: "c < length (connections ?v)" for c
  proof -
    from ri have "\<not> session_live c ?v"
      by (simp add: registry_invariant_def stop_flags)
    with session_cases [of c ?v]
    have "session (connections ?v ! c) = Some Closed \<or> session (connections ?v ! c) = None"
      using c by (auto simp: session_closed_def)
    then show ?thesis
    proof
      assume "session (connections ?v ! c) = Some Closed"
      with ei c show ?thesis
        by (simp add: endpoints_invariant_def)
    next
      assume n: "session (connections ?v ! c) = None"
      with ei c have "\<not> fiber_open (connections ?v ! c)"
        by (simp add: endpoints_invariant_def)
      moreover from stop_no_pending [OF c] n have "\<not> socket_open (connections ?v ! c)"
        by simp
      ultimately show ?thesis
        by simp
    qed
  qed
  then show ?thesis
    by (simp add: released_def stop_flags)
qed

lemma released_initial: "released initial"
  by (simp add: released_def initial_def)

lemma StopSession_released:
  assumes "released w" and "registry_invariant w"
  shows "StopSession c w = w"
proof -
  have "session_stop c w = w"
  proof (cases "c < length (connections w) \<and> session (connections w ! c) \<noteq> None")
    case False
    then show ?thesis
      by (auto simp: session_stop_def)
  next
    case True
    from assms have "\<not> session_live c w"
      by (simp add: registry_invariant_def released_def)
    with True session_cases [of c w] have cl: "session (connections w ! c) = Some Closed"
      by (simp add: session_closed_def)
    from assms(1) True have "\<not> socket_open (connections w ! c)"
      and "\<not> fiber_open (connections w ! c)"
      by (simp_all add: released_def)
    with cl have "(connections w ! c)\<lparr>socket_open := False, fiber_open := False,
        session := Some Closed\<rparr> = connections w ! c"
      by (cases "connections w ! c") simp
    then show ?thesis
      by (simp add: session_stop_def)
  qed
  moreover from assms(1) have "c \<notin> set (registry w)"
    by (simp add: released_def)
  ultimately show ?thesis
    by (simp add: StopSession_def erase_def)
qed

lemma stop_released:
  assumes "released w"
  shows "stop w = (None, w)"
proof -
  from assms have "w\<lparr>listening := False, accept_pending := False\<rparr> = w"
    by (cases w) (simp add: released_def)
  moreover from assms have "stopAll w = w"
    by (simp add: stopAll_def released_def)
  moreover have "cancel_pending_opens w = w"
  proof -
    have "\<not> socket_open x" if "x \<in> set (connections w)" for x
      using that assms by (auto simp: released_def in_set_conv_nth)
    then have "map (\<lambda>x. if socket_open x \<and> session x = None
        then x\<lparr>socket_open := False\<rparr> else x) (connections w) = connections w"
      by (intro map_idI) simp
    then show ?thesis
      by (simp add: cancel_pending_opens_def)
  qed
  ultimately show ?thesis
    by (simp add: stop_def)
qed

lemma step_released:
  assumes "released w" and "registry_invariant w" and "e \<noteq> Start True"
  shows "step w e = w"
proof (cases e)
  case (Start ok)
  with assms(3) have "\<not> ok" by simp
  with Start assms(1) show ?thesis
    by (simp add: start_def released_def)
next
  case Stop
  with stop_released [OF assms(1)] show ?thesis by simp
next
  case (Accept_completes ok)
  with assms(1) show ?thesis
    by (simp add: SocketAcceptHandler_def released_def)
next
  case (Fiber_connect_completes c ok)
  from assms(1) have "\<not> open_pending c w"
    by (auto simp: open_pending_def released_def)
  with Fiber_connect_completes show ?thesis
    by (simp add: FiberConnectHandler_def)
next
  case (Relay_ends c)
  with StopSession_released [OF assms(1,2)] show ?thesis by simp
next
  case (Stop_one c)
  with StopSession_released [OF assms(1,2)] show ?thesis by simp
qed

lemma run_released:
  assumes "released w" and "registry_invariant w" and "\<forall>e \<in> set events. e \<noteq> Start True"
  shows "run w events = w"
  using assms(3) unfolding run_def
  by (induction events) (simp_all add: step_released [OF assms(1,2)])

text \<open>
  C7. In every reachable state \<open>stop\<close> reports no error. Afterwards the listening endpoint
  is closed and no accept is pending; the registry is empty and every session that was in
  it is \<open>Closed\<close> with both endpoints closed; no connection at all keeps an open socket or
  channel, and no channel open is pending any more, so every resource is released. The
  stopped service stays as it is under every later event other than a successful \<open>start\<close>:
  a second \<open>stop\<close>, directly or after late completions, changes nothing and reports no
  error. The same holds for a \<open>stop\<close> in an execution in which no \<open>start\<close> succeeded.
\<close>

theorem stop_idempotent:
  assumes "w = run initial events"
  shows "fst (stop w) = None
   \<and> \<not> listening (snd (stop w))
   \<and> \<not> accept_pending (snd (stop w))
   \<and> registry (snd (stop w)) = []
   \<and> (\<forall>c \<in> set (registry w). torn_down c (snd (stop w)))
   \<and> length (connections (snd (stop w))) = length (connections w)
   \<and> (\<forall>c < length (connections w).
        \<not> socket_open (connections (snd (stop w)) ! c) \<and>
        \<not> fiber_open (connections (snd (stop w)) ! c))
   \<and> (\<forall>c. \<not> open_pending c (snd (stop w)))
   \<and> stop (snd (stop w)) = (None, snd (stop w))
   \<and> (\<forall>later. (\<forall>e \<in> set later. e \<noteq> Start True) \<longrightarrow>
        run (snd (stop w)) later = snd (stop w) \<and>
        stop (run (snd (stop w)) later) = (None, snd (stop w)))
   \<and> ((\<forall>e \<in> set events. e \<noteq> Start True) \<longrightarrow> stop w = (None, w))"
proof -
  have inv: "registry_invariant w"
    unfolding assms by (rule registry_invariant_run) (rule registry_invariant_initial)
  have ends: "endpoints_invariant w"
    unfolding assms by (rule endpoints_invariant_run) (rule endpoints_invariant_initial)
  have rel: "released (snd (stop w))"
    using inv ends by (rule released_stop)
  have inv': "registry_invariant (snd (stop w))"
    using inv by (rule registry_invariant_stop)
  have torn: "torn_down c (snd (stop w))" if "c \<in> set (registry w)" for c
  proof -
    let ?v = "w\<lparr>listening := False, accept_pending := False\<rparr>"
    from inv that have "session_live c w"
      by (simp add: registry_invariant_def)
    then have "session_live c ?v" and "c \<in> set (registry ?v)"
      using that by (simp_all add: session_live_def)
    then have "torn_down c (foldl (\<lambda>w' d. StopSession d w') ?v (registry ?v))"
      by (intro torn_down_fold_StopSession) simp
    then show ?thesis
      by (simp add: stop_def stopAll_def torn_down_cancel)
  qed
  have closed: "\<not> socket_open (connections (snd (stop w)) ! c) \<and>
      \<not> fiber_open (connections (snd (stop w)) ! c)" if "c < length (connections w)" for c
    using rel that by (simp add: released_def stop_length)
  have pending: "\<not> open_pending c (snd (stop w))" for c
    using rel by (auto simp: released_def open_pending_def)
  have again: "stop (snd (stop w)) = (None, snd (stop w))"
    using rel by (rule stop_released)
  have later: "run (snd (stop w)) later = snd (stop w) \<and>
      stop (run (snd (stop w)) later) = (None, snd (stop w))"
    if "\<forall>e \<in> set later. e \<noteq> Start True" for later
    using run_released [OF rel inv' that] again by simp
  have never: "stop w = (None, w)" if "\<forall>e \<in> set events. e \<noteq> Start True"
  proof -
    from that have "w = initial"
      unfolding assms by (rule run_released [OF released_initial registry_invariant_initial])
    then show ?thesis
      by (simp add: stop_released released_initial)
  qed
  have "fst (stop w) = None"
    by (simp add: stop_def)
  with torn closed pending again later never show ?thesis
    by (simp add: stop_flags stop_length)
qed

theorem stop_idempotent_witness:
  "torn_down 0 (snd (stop (run initial [Start True, Accept_completes True,
      Accept_completes True, Fiber_connect_completes 0 True])))
   \<and> \<not> socket_open (connections (snd (stop (run initial [Start True, Accept_completes True,
      Accept_completes True, Fiber_connect_completes 0 True]))) ! 1)
   \<and> run (snd (stop (run initial [Start True, Accept_completes True,
      Accept_completes True, Fiber_connect_completes 0 True])))
        [Fiber_connect_completes 1 True, Relay_ends 0, Stop]
      = snd (stop (run initial [Start True, Accept_completes True,
      Accept_completes True, Fiber_connect_completes 0 True]))
   \<and> stop (run initial [Start False, Stop_one 3]) = (None, run initial [Start False, Stop_one 3])"
proof -
  let ?a = "[Start True, Accept_completes True, Accept_completes True,
      Fiber_connect_completes 0 True]"
  let ?b = "[Start False, Stop_one 3]"
  let ?l = "[Fiber_connect_completes 1 True, Relay_ends 0, Stop]"
  note a = stop_idempotent [where w = "run initial ?a" and events = ?a, OF refl]
  note b = stop_idempotent [where w = "run initial ?b" and events = ?b, OF refl]
  have "0 \<in> set (registry (run initial ?a))"
    by (simp add: runtime_defs)
  with a have 1: "torn_down 0 (snd (stop (run initial ?a)))"
    by blast
  have "1 < length (connections (run initial ?a))"
    by (simp add: runtime_defs)
  with a have 2: "\<not> socket_open (connections (snd (stop (run initial ?a))) ! 1)"
    by blast
  have "\<forall>e \<in> set ?l. e \<noteq> Start True"
    by simp
  with a have 3: "run (snd (stop (run initial ?a))) ?l = snd (stop (run initial ?a))"
    by blast
  have "\<forall>e \<in> set ?b. e \<noteq> Start True"
    by simp
  with b have 4: "stop (run initial ?b) = (None, run initial ?b)"
    by blast
  from 1 2 3 4 show ?thesis
    by blast
qed

section \<open>A failed channel open\<close>

lemma discarded_not_pending: "discarded c w \<Longrightarrow> \<not> open_pending c w"
  by (simp add: discarded_def open_pending_def)

lemma discarded_not_live: "discarded c w \<Longrightarrow> \<not> session_live c w"
  by (simp add: discarded_def session_live_def)

lemma discarded_StopSession: "discarded c w \<Longrightarrow> discarded c (StopSession d w)"
  by (auto simp: discarded_def connections_StopSession)

lemma discarded_fold_StopSession:
  "discarded c w \<Longrightarrow> discarded c (foldl (\<lambda>w' d. StopSession d w') w cs)"
  by (induction cs arbitrary: w) (simp_all add: discarded_StopSession)

lemma discarded_cancel: "discarded c w \<Longrightarrow> discarded c (cancel_pending_opens w)"
  by (simp add: discarded_def cancel_fields connections_cancel)

lemma discarded_flags:
  "discarded c (w\<lparr>listening := a, accept_pending := b\<rparr>) = discarded c w"
  by (simp add: discarded_def)

lemma discarded_step: "discarded c w \<Longrightarrow> discarded c (step w e)"
proof (cases e)
  case (Start ok)
  assume "discarded c w"
  with Start show ?thesis
    by (simp add: start_def discarded_flags)
next
  case Stop
  assume "discarded c w"
  with Stop show ?thesis
    by (simp add: stop_def stopAll_def discarded_cancel discarded_fold_StopSession
        discarded_flags)
next
  case (Accept_completes ok)
  assume "discarded c w"
  with Accept_completes show ?thesis
    by (auto simp: SocketAcceptHandler_def discarded_def nth_append)
next
  case (Fiber_connect_completes d ok)
  assume "discarded c w"
  with Fiber_connect_completes show ?thesis
    by (auto simp: FiberConnectHandler_def open_pending_def set_connection_def
        insert_session_def discarded_def nth_list_update)
next
  case (Relay_ends d)
  assume "discarded c w"
  with Relay_ends show ?thesis
    by (simp add: discarded_StopSession)
next
  case (Stop_one d)
  assume "discarded c w"
  with Stop_one show ?thesis
    by (simp add: discarded_StopSession)
qed

lemma discarded_run: "discarded c w \<Longrightarrow> discarded c (run w events)"
  unfolding run_def
  by (induction events arbitrary: w) (simp_all add: discarded_step)

lemma FiberConnectHandler_failure:
  assumes "open_pending c w"
  shows "discarded c (FiberConnectHandler c False w)"
    and "registry (FiberConnectHandler c False w) = registry w"
  using assms
  by (auto simp: FiberConnectHandler_def open_pending_def set_connection_def discarded_def)

text \<open>
  C8. In every reachable state, when the channel open of an accepted connection completes
  with a failure, the handler closes the TCP socket and leaves the registry as it was, which
  did not hold the connection. From then on, whatever happens, the connection stays
  discarded (socket closed, no Session), its channel open is never pending again (no
  retry), and its identifier never enters the registry.
\<close>

theorem failed_establishment_discarded:
  assumes "open_pending c (run initial events)"
  shows "registry (FiberConnectHandler c False (run initial events)) = registry (run initial events)
     \<and> c \<notin> set (registry (run initial events))
     \<and> (\<forall>later.
          discarded c (run (FiberConnectHandler c False (run initial events)) later) \<and>
          \<not> open_pending c (run (FiberConnectHandler c False (run initial events)) later) \<and>
          c \<notin> set (registry (run (FiberConnectHandler c False (run initial events)) later)))"
proof -
  let ?w = "run initial events"
  let ?w' = "FiberConnectHandler c False ?w"
  have inv: "registry_invariant ?w"
    by (rule registry_invariant_run) (rule registry_invariant_initial)
  from assms have "\<not> session_live c ?w"
    by (simp add: open_pending_def session_live_def)
  with inv have absent: "c \<notin> set (registry ?w)"
    by (simp add: registry_invariant_def)
  have later: "discarded c (run ?w' later) \<and> \<not> open_pending c (run ?w' later) \<and>
      c \<notin> set (registry (run ?w' later))" for later
  proof -
    have d: "discarded c (run ?w' later)"
      by (intro discarded_run FiberConnectHandler_failure assms)
    have "registry_invariant (run ?w' later)"
      by (intro registry_invariant_run registry_invariant_fiber_connect inv)
    with discarded_not_live [OF d] have "c \<notin> set (registry (run ?w' later))"
      by (simp add: registry_invariant_def)
    with d show ?thesis
      by (simp add: discarded_not_pending)
  qed
  from absent later show ?thesis
    by (simp add: FiberConnectHandler_failure [OF assms])
qed

theorem failed_establishment_discarded_witness:
  "discarded 0 (run (FiberConnectHandler 0 False (run initial [Start True, Accept_completes True]))
                  [Fiber_connect_completes 0 True, Accept_completes True, Stop])
   \<and> 0 \<notin> set (registry
        (run (FiberConnectHandler 0 False (run initial [Start True, Accept_completes True]))
           [Fiber_connect_completes 0 True, Accept_completes True, Stop]))"
proof -
  have "open_pending 0 (run initial [Start True, Accept_completes True])"
    by (simp add: runtime_defs)
  from failed_establishment_discarded [OF this] show ?thesis
    by blast
qed

end
